theory Spec2Isabelle
  imports Complex_Main
begin

section \<open>The snake minigame of eurhuf: simulation step and leaderboard\<close>

text \<open>
  A shallow embedding of \<^verbatim>\<open>src/src/SnakeGame.tsx\<close>. The React refs and state cells that the
  simulation step and the leaderboard code read and write become the fields of one record;
  every function of the component becomes a function from the old record to the new one.
  Audio, canvas drawing and local-storage writes are effects that no modelled function
  reads back; the sounds and particle bursts of the simulation step are kept as a log of
  events, the others are left out.
\<close>

subsection \<open>Configuration\<close>

definition GRID_SIZE :: int where "GRID_SIZE = 15"
definition INITIAL_SPEED :: int where "INITIAL_SPEED = 150"
definition MIN_SPEED :: int where "MIN_SPEED = 60"
definition SPEED_DECREASE :: int where "SPEED_DECREASE = 5"
definition FOOD_SCORE :: int where "FOOD_SCORE = 1"
definition LEVEL_CLEAR_SCORE :: int where "LEVEL_CLEAR_SCORE = 5"
definition FOOD_PER_LEVEL :: int where "FOOD_PER_LEVEL = 8"
definition NAME_MAX_CHARS :: nat where "NAME_MAX_CHARS = 8"

subsection \<open>Data model\<close>

datatype Direction = UP | DOWN | LEFT | RIGHT

datatype GameState = menu | playing | paused | gameover | levelclear

datatype EnemyKind = ant | crab | void

record Position =
  x :: int
  y :: int

text \<open>\<^verbatim>\<open>interface EnemyCell extends Position\<close>: the record extends \<open>Position\<close>.\<close>

record EnemyCell = Position +
  kind :: EnemyKind
  phase :: real

text \<open>
  \<open>speedRef\<close> holds a JavaScript number. The program only ever stores integers there, but
  it guards against a non-finite value, so the three non-finite numbers are part of the type.
\<close>

datatype jsnum = Fin int | PosInf | NegInf | NaN

fun isFinite :: "jsnum \<Rightarrow> bool" where
  "isFinite (Fin _) = True"
| "isFinite _ = False"

text \<open>\<open>v - k\<close> and \<open>Math.max(v, k)\<close> for a finite integer \<open>k\<close>.\<close>

fun jsMinus :: "jsnum \<Rightarrow> int \<Rightarrow> jsnum" where
  "jsMinus (Fin a) k = Fin (a - k)"
| "jsMinus PosInf k = PosInf"
| "jsMinus NegInf k = NegInf"
| "jsMinus NaN k = NaN"

fun jsMax :: "jsnum \<Rightarrow> int \<Rightarrow> jsnum" where
  "jsMax (Fin a) k = Fin (max a k)"
| "jsMax PosInf k = PosInf"
| "jsMax NegInf k = Fin k"
| "jsMax NaN k = NaN"

text \<open>
  A JavaScript string is a sequence of UTF-16 code units; \<open>slice\<close> and \<open>trim\<close> work on
  those.
\<close>

type_synonym jsstring = "nat list"

text \<open>
  Scores, levels and timestamps are integers throughout the program (\<open>Date.now()\<close>,
  \<open>Date.parse\<close>, counters). The optional \<open>id\<close> field is \<open>id'\<close> here.
\<close>

record HallOfFameEntry =
  id' :: "jsstring option"
  name :: jsstring
  score :: int
  level :: int
  ts :: int

text \<open>The notices that \<open>setHofError\<close> is given; the payload is the formatted remote error.\<close>

datatype HofError = SlowList | LoadFailed jsstring | SaveFailed jsstring

text \<open>The calls the simulation step makes to the audio and particle helpers.\<close>

datatype Effect =
    GameOverSound
  | CoinSound
  | Particles int int nat

text \<open>
  The refs and state cells of the component that the modelled functions touch.
  \<open>levelClearTimers\<close> counts the 100 ms timers that \<open>moveSnake\<close> has scheduled for the
  level-clear transition. \<open>hallOfFameRef\<close> mirrors \<open>hallOfFame\<close> and is the same field here;
  \<open>loadHallOfFameOnlineRef\<close> is set exactly while \<open>hofIsMounted\<close> is. The fields
  \<open>score\<close> and \<open>level\<close> of an entry are written \<open>HallOfFameEntry.score\<close> and
  \<open>HallOfFameEntry.level\<close> from here on.
\<close>

record SnakeGame =
  snake :: "Position list"
  direction :: Direction
  inputQueue :: "Direction list"
  food :: Position
  enemies :: "EnemyCell list"
  speed :: jsnum
  score :: int
  highScore :: int
  isNewRecord :: bool
  level :: int
  foodEatenThisLevel :: int
  gameState :: GameState
  levelClearTimers :: nat
  effects :: "Effect list"
  hallOfFame :: "HallOfFameEntry list"
  playerName :: jsstring
  hasSavedScore :: bool
  hofLoading :: bool
  hofError :: "HofError option"
  hofRequestId :: int
  hofIsMounted :: bool

subsection \<open>Food respawn\<close>

text \<open>
  \<open>isBlocked\<close> of \<open>spawnFood\<close>: the position is a snake cell or an enemy cell.
\<close>

definition isBlocked :: "Position list \<Rightarrow> EnemyCell list \<Rightarrow> Position \<Rightarrow> bool" where
  "isBlocked sn en pos \<longleftrightarrow>
     list_ex (\<lambda>seg. x seg = x pos \<and> y seg = y pos) sn \<or>
     list_ex (\<lambda>enemy. x enemy = x pos \<and> y enemy = y pos) en"

text \<open>
  The \<open>do \<dots> while\<close> loop. \<open>rnd i\<close> is the cell drawn from \<open>Math.random\<close> in iteration \<open>i\<close>
  (counted from 0); \<open>attempts\<close> is the counter before the iteration. The loop stops at the
  first draw that is not blocked, or after 300 draws.
\<close>

function sampleFood :: "(Position \<Rightarrow> bool) \<Rightarrow> (nat \<Rightarrow> Position) \<Rightarrow> nat \<Rightarrow> Position" where
  "sampleFood blocked rnd attempts =
     (let newFood = rnd attempts; attempts' = attempts + 1
      in if blocked newFood \<and> attempts' < 300
         then sampleFood blocked rnd attempts'
         else newFood)"
  by pat_completeness auto
termination
  by (relation "measure (\<lambda>(blocked, rnd, attempts). 300 - attempts)") auto

text \<open>
  The inner \<open>for\<close> loop of the fallback scan over one row: the first free cell of row
  \<open>row\<close> at column \<open>col\<close> or later, if there is one.
\<close>

function scanRow :: "(Position \<Rightarrow> bool) \<Rightarrow> int \<Rightarrow> int \<Rightarrow> Position option" where
  "scanRow blocked row col =
     (if col < GRID_SIZE
      then (let candidate = \<lparr>x = col, y = row\<rparr>
            in if \<not> blocked candidate then Some candidate
               else scanRow blocked row (col + 1))
      else None)"
  by pat_completeness auto
termination
  by (relation "measure (\<lambda>(blocked, row, col). nat (GRID_SIZE - col))") auto

text \<open>
  The outer loop: rows from \<open>row\<close> on. A hit ends both loops (\<open>y = GRID_SIZE; break\<close>);
  with no hit at all \<open>newFood\<close> keeps the value it had.
\<close>

function scanGrid :: "(Position \<Rightarrow> bool) \<Rightarrow> int \<Rightarrow> Position \<Rightarrow> Position" where
  "scanGrid blocked row newFood =
     (if row < GRID_SIZE
      then (case scanRow blocked row 0 of
              Some candidate \<Rightarrow> candidate
            | None \<Rightarrow> scanGrid blocked (row + 1) newFood)
      else newFood)"
  by pat_completeness auto
termination
  by (relation "measure (\<lambda>(blocked, row, newFood). nat (GRID_SIZE - row))") auto

definition spawnFood :: "(nat \<Rightarrow> Position) \<Rightarrow> Position list \<Rightarrow> EnemyCell list \<Rightarrow> Position" where
  "spawnFood rnd sn en =
     (let newFood = sampleFood (isBlocked sn en) rnd 0
      in if isBlocked sn en newFood
         then scanGrid (isBlocked sn en) 0 newFood
         else newFood)"

subsection \<open>The simulation step\<close>

text \<open>The test behind \<open>isValidTurn\<close>: the queued direction reverses the heading.\<close>

definition isValidTurn :: "Direction \<Rightarrow> Direction \<Rightarrow> bool" where
  "isValidTurn currentDir nextDir \<longleftrightarrow>
     \<not> ((currentDir = UP \<and> nextDir = DOWN) \<or>
        (currentDir = DOWN \<and> nextDir = UP) \<or>
        (currentDir = LEFT \<and> nextDir = RIGHT) \<or>
        (currentDir = RIGHT \<and> nextDir = LEFT))"

text \<open>Processing the input queue: at most one direction is taken off the front.\<close>

definition processInput :: "SnakeGame \<Rightarrow> SnakeGame" where
  "processInput g =
     (case inputQueue g of
        [] \<Rightarrow> g
      | nextDir # rest \<Rightarrow>
          (if isValidTurn (direction g) nextDir
           then g\<lparr>inputQueue := rest, direction := nextDir\<rparr>
           else g\<lparr>inputQueue := rest\<rparr>))"

text \<open>The \<open>switch\<close> on the heading, applied to a copy of the head.\<close>

fun stepHead :: "Direction \<Rightarrow> Position \<Rightarrow> Position" where
  "stepHead UP h = h\<lparr>y := y h - 1\<rparr>"
| "stepHead DOWN h = h\<lparr>y := y h + 1\<rparr>"
| "stepHead LEFT h = h\<lparr>x := x h - 1\<rparr>"
| "stepHead RIGHT h = h\<lparr>x := x h + 1\<rparr>"

text \<open>The speed-up after a food item, with its guard.\<close>

definition speedUp :: "jsnum \<Rightarrow> jsnum" where
  "speedUp v =
     (let v' = jsMax (jsMinus v SPEED_DECREASE) MIN_SPEED
      in if \<not> isFinite v' then Fin INITIAL_SPEED else v')"

text \<open>The updater passed to \<open>setScore\<close> when food is eaten.\<close>

definition addFoodScore :: "SnakeGame \<Rightarrow> SnakeGame" where
  "addFoodScore g =
     (let newScore = score g + FOOD_SCORE
      in if newScore > highScore g
         then g\<lparr>score := newScore, highScore := newScore, isNewRecord := True\<rparr>
         else g\<lparr>score := newScore\<rparr>)"

text \<open>The updater passed to \<open>setFoodEatenThisLevel\<close>; it schedules the level-clear timer.\<close>

definition countFood :: "SnakeGame \<Rightarrow> SnakeGame" where
  "countFood g =
     (let newCount = foodEatenThisLevel g + 1
      in if newCount \<ge> FOOD_PER_LEVEL
         then g\<lparr>foodEatenThisLevel := newCount, levelClearTimers := levelClearTimers g + 1\<rparr>
         else g\<lparr>foodEatenThisLevel := newCount\<rparr>)"

datatype Outcome = CollisionWall | CollisionSelf | CollisionObstacle | Moved

definition endGame :: "Effect list \<Rightarrow> SnakeGame \<Rightarrow> SnakeGame" where
  "endGame es g = g\<lparr>gameState := gameover, effects := effects g @ es\<rparr>"

text \<open>
  \<open>moveSnake\<close>. The result pairs the branch taken with the new state. With an empty snake
  the source reads \<open>snake[0]\<close> as \<open>undefined\<close>: the copied head has no coordinates, every
  comparison with it is false, and the head that is pushed is popped again, so only the
  input queue and the heading change.
\<close>

definition moveSnake :: "(nat \<Rightarrow> Position) \<Rightarrow> SnakeGame \<Rightarrow> Outcome \<times> SnakeGame" where
  "moveSnake rnd g0 =
     (let g = processInput g0
      in case snake g of
           [] \<Rightarrow> (Moved, g)
         | h # _ \<Rightarrow>
            (let head = stepHead (direction g) h
             in if x head < 0 \<or> x head \<ge> GRID_SIZE \<or> y head < 0 \<or> y head \<ge> GRID_SIZE
                then (CollisionWall, endGame [GameOverSound] g)
                else if list_ex (\<lambda>seg. x seg = x head \<and> y seg = y head) (butlast (snake g))
                then (CollisionSelf, endGame [GameOverSound] g)
                else if list_ex (\<lambda>enemy. x enemy = x head \<and> y enemy = y head) (enemies g)
                then (CollisionObstacle,
                      endGame [Particles (x head) (y head) 18, GameOverSound] g)
                else if x head = x (food g) \<and> y head = y (food g)
                then (let g1 = g\<lparr>snake := head # snake g,
                                  effects := effects g @
                                    [CoinSound, Particles (x (food g)) (y (food g)) 12]\<rparr>;
                          g2 = countFood (addFoodScore g1);
                          g3 = g2\<lparr>speed := speedUp (speed g2)\<rparr>
                      in (Moved, g3\<lparr>food := spawnFood rnd (snake g3) (enemies g3)\<rparr>))
                else (Moved, g\<lparr>snake := butlast (head # snake g)\<rparr>)))"

text \<open>The head that \<open>moveSnake\<close> computes before its collision checks.\<close>

definition newHead :: "SnakeGame \<Rightarrow> Position option" where
  "newHead g0 =
     (let g = processInput g0
      in case snake g of [] \<Rightarrow> None | h # _ \<Rightarrow> Some (stepHead (direction g) h))"

definition inGrid :: "Position \<Rightarrow> bool" where
  "inGrid p \<longleftrightarrow> 0 \<le> x p \<and> x p < GRID_SIZE \<and> 0 \<le> y p \<and> y p < GRID_SIZE"

text \<open>
  The speed the game loop uses for a tick: \<open>speedRef\<close> if it is finite, the initial speed
  otherwise.
\<close>

definition gameLoopSpeed :: "jsnum \<Rightarrow> jsnum" where
  "gameLoopSpeed v = (if isFinite v then v else Fin INITIAL_SPEED)"

subsection \<open>Leaderboard: qualification and merge\<close>

text \<open>
  \<open>getHofCutoff\<close>: \<open>null\<close> below ten entries, else the least score of the list, folded
  from the first entry's score.
\<close>

definition getHofCutoff :: "HallOfFameEntry list \<Rightarrow> int option" where
  "getHofCutoff hof =
     (if length hof < 10 then None
      else case hof of
             [] \<Rightarrow> None
           | first # _ \<Rightarrow>
               Some (foldl (\<lambda>m entry. min m (HallOfFameEntry.score entry))
                       (HallOfFameEntry.score first) hof))"

definition qualifiesForHof :: "HallOfFameEntry list \<Rightarrow> int \<Rightarrow> bool" where
  "qualifiesForHof hof candidateScore =
     (if candidateScore \<le> 0 then False
      else if length hof < 10 then True
      else case getHofCutoff hof of
             None \<Rightarrow> False
           | Some cutoff \<Rightarrow> candidateScore > cutoff)"

text \<open>The comparator given to \<open>sort\<close>: \<open>(b.score - a.score) || (b.ts - a.ts)\<close>.\<close>

definition hofCompare :: "HallOfFameEntry \<Rightarrow> HallOfFameEntry \<Rightarrow> int" where
  "hofCompare a b =
     (if HallOfFameEntry.score b - HallOfFameEntry.score a \<noteq> 0
      then HallOfFameEntry.score b - HallOfFameEntry.score a
      else ts b - ts a)"

text \<open>
  \<open>Array.prototype.sort\<close> with a comparator is a stable sort. For a comparator that is a
  total preorder, as \<open>hofCompare\<close> is, the stable sorted arrangement of a list is unique, so
  the insertion sort below returns what any conforming engine returns.
\<close>

fun jsInsert :: "('a \<Rightarrow> 'a \<Rightarrow> int) \<Rightarrow> 'a \<Rightarrow> 'a list \<Rightarrow> 'a list" where
  "jsInsert cmp a [] = [a]"
| "jsInsert cmp a (b # bs) =
     (if cmp a b \<le> 0 then a # b # bs else b # jsInsert cmp a bs)"

definition jsSort :: "('a \<Rightarrow> 'a \<Rightarrow> int) \<Rightarrow> 'a list \<Rightarrow> 'a list" where
  "jsSort cmp as = foldr (jsInsert cmp) as []"

text \<open>The updater that \<open>mergeHallOfFame\<close> passes to \<open>setHallOfFame\<close>, and the function.\<close>

definition mergeEntries :: "HallOfFameEntry \<Rightarrow> HallOfFameEntry list \<Rightarrow> HallOfFameEntry list" where
  "mergeEntries entry prev = take 10 (jsSort hofCompare (entry # prev))"

definition mergeHallOfFame :: "HallOfFameEntry \<Rightarrow> SnakeGame \<Rightarrow> SnakeGame" where
  "mergeHallOfFame entry g = g\<lparr>hallOfFame := mergeEntries entry (hallOfFame g)\<rparr>"

subsection \<open>Leaderboard: online fetch\<close>

text \<open>
  \<open>loadHallOfFameOnline\<close> runs in three pieces. The first runs when the function is called:
  it takes the next request id. The second is the timeout callback, the third is the code
  after the \<open>await\<close>; both carry the request id they were started with.
\<close>

definition loadHallOfFameOnline_start :: "bool \<Rightarrow> SnakeGame \<Rightarrow> SnakeGame" where
  "loadHallOfFameOnline_start showLoading g =
     (let g1 = g\<lparr>hofRequestId := hofRequestId g + 1\<rparr>;
          g2 = (if showLoading then g1\<lparr>hofLoading := True\<rparr> else g1)
      in g2\<lparr>hofError := None\<rparr>)"

definition loadHallOfFameOnline_timeout :: "int \<Rightarrow> SnakeGame \<Rightarrow> SnakeGame" where
  "loadHallOfFameOnline_timeout requestId g =
     (if \<not> hofIsMounted g then g
      else if hofRequestId g \<noteq> requestId then g
      else if length (hallOfFame g) = 0
      then g\<lparr>hofLoading := False, hofError := Some SlowList\<rparr>
      else g)"

text \<open>
  A row of the remote table as the client returns it; \<open>None\<close> stands for a field that
  fails the \<open>typeof\<close> test (or, for \<open>row_created_at\<close>, that \<open>Date.parse\<close> does not read).
\<close>

record HofRow =
  row_id :: "jsstring option"
  row_name :: "jsstring option"
  row_score :: "int option"
  row_level :: "int option"
  row_created_at :: "int option"

definition rowToEntry :: "int \<Rightarrow> HofRow \<Rightarrow> HallOfFameEntry" where
  "rowToEntry now row =
     \<lparr>id' = row_id row,
      name = (case row_name row of Some n \<Rightarrow> take NAME_MAX_CHARS n | None \<Rightarrow> []),
      HallOfFameEntry.score = (case row_score row of Some s \<Rightarrow> s | None \<Rightarrow> 0),
      HallOfFameEntry.level = (case row_level row of Some l \<Rightarrow> l | None \<Rightarrow> 1),
      ts = (case row_created_at row of Some t \<Rightarrow> t | None \<Rightarrow> now)\<rparr>"

text \<open>The response is the remote error (\<open>Inl\<close>) or the rows (\<open>Inr\<close>).\<close>

definition loadHallOfFameOnline_response ::
    "int \<Rightarrow> jsstring + HofRow list \<Rightarrow> int \<Rightarrow> SnakeGame \<Rightarrow> SnakeGame" where
  "loadHallOfFameOnline_response requestId response now g =
     (if \<not> hofIsMounted g then g
      else if hofRequestId g \<noteq> requestId then g
      else case response of
             Inl details \<Rightarrow> g\<lparr>hofError := Some (LoadFailed details), hofLoading := False\<rparr>
           | Inr rows \<Rightarrow>
               g\<lparr>hallOfFame := filter (\<lambda>entry. name entry \<noteq> []) (map (rowToEntry now) rows),
                 hofError := None, hofLoading := False\<rparr>)"

subsection \<open>Leaderboard: saving a score\<close>

text \<open>The code units that \<open>String.prototype.trim\<close> removes.\<close>

definition isWhiteSpace :: "nat \<Rightarrow> bool" where
  "isWhiteSpace c \<longleftrightarrow>
     c \<in> {9, 10, 11, 12, 13, 32, 160, 5760, 8232, 8233, 8239, 8287, 12288, 65279}
     \<or> (8192 \<le> c \<and> c \<le> 8202)"

definition trim :: "jsstring \<Rightarrow> jsstring" where
  "trim s = rev (dropWhile isWhiteSpace (rev (dropWhile isWhiteSpace s)))"

text \<open>
  \<open>handleSaveScore\<close> runs in two pieces around its \<open>await\<close>. \<open>hasSupabaseConfig\<close> is the
  module constant (\<open>supabase\<close> is non-null exactly when it holds) and \<open>now\<close> is \<open>Date.now()\<close>.
  The first piece runs the guards and builds the entry; \<open>None\<close> means that the call has
  returned. Without the remote backend nothing is awaited and the second piece follows at
  once.
\<close>

definition handleSaveScore_start ::
    "bool \<Rightarrow> int \<Rightarrow> SnakeGame \<Rightarrow> HallOfFameEntry option \<times> SnakeGame" where
  "handleSaveScore_start hasSupabaseConfig now g =
     (if hasSavedScore g \<or> score g \<le> 0 then (None, g)
      else if hasSupabaseConfig \<and> hofLoading g \<and> length (hallOfFame g) = 0 then (None, g)
      else if \<not> qualifiesForHof (hallOfFame g) (score g) then (None, g)
      else
        (let name = take NAME_MAX_CHARS (trim (playerName g))
         in if name = [] then (None, g)
            else
              (let entry = \<lparr>id' = None, name = name, HallOfFameEntry.score = score g,
                             HallOfFameEntry.level = level g, ts = now\<rparr>
               in (Some entry, if hasSupabaseConfig then g\<lparr>hofError := None\<rparr> else g))))"

text \<open>
  The second piece: \<open>insertError\<close> is what the awaited remote insert yields, \<open>None\<close> for
  success, else the error, thrown or returned. After a success the list is fetched again
  if the fetch function is still registered.
\<close>

definition handleSaveScore_finish ::
    "bool \<Rightarrow> jsstring option \<Rightarrow> HallOfFameEntry \<Rightarrow> SnakeGame \<Rightarrow> SnakeGame" where
  "handleSaveScore_finish hasSupabaseConfig insertError entry g =
     (if hasSupabaseConfig
      then (case insertError of
              None \<Rightarrow>
                (let g1 = mergeHallOfFame entry g;
                     g2 = (if hofIsMounted g1
                           then loadHallOfFameOnline_start False g1 else g1)
                 in g2\<lparr>hasSavedScore := True\<rparr>)
            | Some details \<Rightarrow>
                (mergeHallOfFame entry (g\<lparr>hofError := Some (SaveFailed details)\<rparr>))
                  \<lparr>hasSavedScore := True\<rparr>)
      else (mergeHallOfFame entry g)\<lparr>hasSavedScore := True\<rparr>)"

text \<open>One call of \<open>handleSaveScore\<close> run to its end, with nothing else in between.\<close>

definition handleSaveScore :: "bool \<Rightarrow> jsstring option \<Rightarrow> int \<Rightarrow> SnakeGame \<Rightarrow> SnakeGame" where
  "handleSaveScore hasSupabaseConfig insertError now g =
     (case handleSaveScore_start hasSupabaseConfig now g of
        (None, g') \<Rightarrow> g'
      | (Some entry, g') \<Rightarrow> handleSaveScore_finish hasSupabaseConfig insertError entry g')"

text \<open>
  What can happen to the leaderboard state while a game is over, with the remote backend
  configured: a fetch is started, a timeout fires, a response arrives, a save starts, a
  save gets the answer to its insert, the component is unmounted. A continuation carries
  what its closure holds: the request id, or the entry.
\<close>

datatype HofEvent =
    StartFetch bool
  | FetchTimeout int
  | FetchResponse int "jsstring + HofRow list" int
  | SaveStart int
  | SaveFinish "jsstring option" HallOfFameEntry
  | Unmount

fun hofStep :: "HofEvent \<Rightarrow> SnakeGame \<Rightarrow> SnakeGame" where
  "hofStep (StartFetch showLoading) g = loadHallOfFameOnline_start showLoading g"
| "hofStep (FetchTimeout requestId) g = loadHallOfFameOnline_timeout requestId g"
| "hofStep (FetchResponse requestId response now) g =
     loadHallOfFameOnline_response requestId response now g"
| "hofStep (SaveStart now) g = snd (handleSaveScore_start True now g)"
| "hofStep (SaveFinish insertError entry) g = handleSaveScore_finish True insertError entry g"
| "hofStep Unmount g = g\<lparr>hofIsMounted := False\<rparr>"

fun hofRun :: "HofEvent list \<Rightarrow> SnakeGame \<Rightarrow> SnakeGame" where
  "hofRun [] g = g"
| "hofRun (e # es) g = hofRun es (hofStep e g)"

subsection \<open>Notions used in the statements\<close>

text \<open>The reverse of a heading.\<close>

fun opposite :: "Direction \<Rightarrow> Direction" where
  "opposite UP = DOWN"
| "opposite DOWN = UP"
| "opposite LEFT = RIGHT"
| "opposite RIGHT = LEFT"

text \<open>The order in which the fallback scan visits the grid: row by row, left to right.\<close>

definition rowMajorBefore :: "Position \<Rightarrow> Position \<Rightarrow> bool" where
  "rowMajorBefore p q \<longleftrightarrow> y p < y q \<or> (y p = y q \<and> x p < x q)"

text \<open>The leaderboard order: higher score first, and among equal scores the later entry first.\<close>

definition hofOrdered :: "HallOfFameEntry \<Rightarrow> HallOfFameEntry \<Rightarrow> bool" where
  "hofOrdered a b \<longleftrightarrow>
     HallOfFameEntry.score a > HallOfFameEntry.score b
     \<or> (HallOfFameEntry.score a = HallOfFameEntry.score b \<and> ts a \<ge> ts b)"

text \<open>The entry that \<open>handleSaveScore\<close> builds from the state and the clock.\<close>

definition savedEntry :: "int \<Rightarrow> SnakeGame \<Rightarrow> HallOfFameEntry" where
  "savedEntry now g =
     \<lparr>id' = None, name = take NAME_MAX_CHARS (trim (playerName g)),
      HallOfFameEntry.score = score g, HallOfFameEntry.level = level g, ts = now\<rparr>"

subsection \<open>Concrete states\<close>

text \<open>
  The component as it is first rendered, with nothing in local storage; the argument is
  \<open>hasSupabaseConfig\<close>, the initial value of \<open>hofLoading\<close>.
\<close>

definition initialGame :: "bool \<Rightarrow> SnakeGame" where
  "initialGame hasSupabaseConfig =
     \<lparr>snake = [\<lparr>x = 7, y = 7\<rparr>], direction = RIGHT, inputQueue = [],
      food = \<lparr>x = 10, y = 7\<rparr>, enemies = [], speed = Fin INITIAL_SPEED,
      score = 0, highScore = 0, isNewRecord = False, level = 1, foodEatenThisLevel = 0,
      gameState = menu, levelClearTimers = 0, effects = [],
      hallOfFame = [], playerName = [], hasSavedScore = False,
      hofLoading = hasSupabaseConfig, hofError = None, hofRequestId = 0,
      hofIsMounted = False\<rparr>"

text \<open>A random source that draws the corner cell every time.\<close>

definition originDraws :: "nat \<Rightarrow> Position" where
  "originDraws i = \<lparr>x = 0, y = 0\<rparr>"

text \<open>The three-cell snake of a fresh level, about to eat, turn back, or leave the grid.\<close>

definition startSnake :: "Position list" where
  "startSnake = [\<lparr>x = 7, y = 7\<rparr>, \<lparr>x = 6, y = 7\<rparr>, \<lparr>x = 5, y = 7\<rparr>]"

definition playingGame :: SnakeGame where
  "playingGame = (initialGame False)\<lparr>snake := startSnake, gameState := playing\<rparr>"

definition eatingGame :: SnakeGame where
  "eatingGame = playingGame\<lparr>inputQueue := [UP], food := \<lparr>x = 7, y = 6\<rparr>, speed := Fin 62\<rparr>"

definition reversingGame :: SnakeGame where
  "reversingGame = playingGame\<lparr>inputQueue := [LEFT, UP]\<rparr>"

definition wallGame :: SnakeGame where
  "wallGame =
     playingGame\<lparr>snake := [\<lparr>x = 14, y = 7\<rparr>, \<lparr>x = 13, y = 7\<rparr>, \<lparr>x = 12, y = 7\<rparr>]\<rparr>"


definition cornerEnemy :: "EnemyCell list" where
  "cornerEnemy = [\<lparr>x = 0, y = 0, kind = ant, phase = 0\<rparr>]"

text \<open>A snake that winds through every cell of the grid, row by row.\<close>

definition fullGridSnake :: "Position list" where
  "fullGridSnake =
     concat (map (\<lambda>r. (if even r then (\<lambda>cells. cells) else rev)
                         (map (\<lambda>c. \<lparr>x = c, y = r\<rparr>) [0..14])) [0..14])"

text \<open>
  A finished game with five points and the name \<open>AB\<close> typed in; the argument is
  \<open>hasSupabaseConfig\<close>.
\<close>

definition gameOverGame :: "bool \<Rightarrow> SnakeGame" where
  "gameOverGame hasSupabaseConfig =
     (initialGame hasSupabaseConfig)\<lparr>gameState := gameover, score := 5, playerName := [65, 66]\<rparr>"

text \<open>
  The same with the backend configured, the online list loaded (and empty) and the fetch
  function registered.
\<close>

definition loadedGame :: SnakeGame where
  "loadedGame = (gameOverGame True)\<lparr>hofLoading := False, hofIsMounted := True\<rparr>"

text \<open>A leaderboard of ten entries with the scores 12 down to 3, and a row of the remote table.\<close>

definition boardEntry :: "int \<Rightarrow> int \<Rightarrow> HallOfFameEntry" where
  "boardEntry s t = \<lparr>id' = None, name = [65], HallOfFameEntry.score = s,
                     HallOfFameEntry.level = 1, ts = t\<rparr>"

definition fullBoard :: "HallOfFameEntry list" where
  "fullBoard = map (\<lambda>s. boardEntry s 100) [12, 11, 10, 9, 8, 7, 6, 5, 4, 3]"

definition sampleRow :: HofRow where
  "sampleRow = \<lparr>row_id = Some [49], row_name = Some [90, 90], row_score = Some 7,
                row_level = Some 2, row_created_at = Some 4000\<rparr>"

section \<open>Properties\<close>

declare sampleFood.simps [simp del] scanRow.simps [simp del] scanGrid.simps [simp del]

subsection \<open>Positions and cells\<close>

lemma Position_eq_iff: "(p :: Position) = q \<longleftrightarrow> x p = x q \<and> y p = y q"
  by (cases p, cases q) simp

lemma on_cells_iff:
  "list_ex (\<lambda>seg. x seg = x h \<and> y seg = y h) cells \<longleftrightarrow> (h :: Position) \<in> set cells"
  unfolding list_ex_iff by (metis Position_eq_iff)

lemma blocked_cell: "blocked \<lparr>x = x q, y = r\<rparr> \<Longrightarrow> y q = r \<Longrightarrow> blocked (q :: Position)"
  by (cases q) simp

lemma isBlocked_iff:
  "isBlocked sn en p \<longleftrightarrow> p \<in> set sn \<or> (\<exists>enemy \<in> set en. x enemy = x p \<and> y enemy = y p)"
  by (simp add: isBlocked_def on_cells_iff) (simp add: list_ex_iff)

subsection \<open>The input queue and the heading\<close>

lemma isValidTurn_opposite: "isValidTurn c n \<longleftrightarrow> n \<noteq> opposite c"
  by (cases c; cases n) (simp_all add: isValidTurn_def)

lemma direction_processInput:
  "direction (processInput g) =
     (case inputQueue g of [] \<Rightarrow> direction g
      | n # _ \<Rightarrow> if n = opposite (direction g) then direction g else n)"
  by (simp add: processInput_def isValidTurn_opposite split: list.splits)

lemma inputQueue_processInput: "inputQueue (processInput g) = tl (inputQueue g)"
  by (simp add: processInput_def split: list.splits)

lemma processInput_grid [simp]:
  "snake (processInput g) = snake g" "food (processInput g) = food g"
  "enemies (processInput g) = enemies g" "speed (processInput g) = speed g"
  by (simp_all add: processInput_def split: list.splits)

lemma direction_moveSnake: "direction (snd (moveSnake rnd g)) = direction (processInput g)"
  by (simp add: moveSnake_def Let_def endGame_def addFoodScore_def countFood_def
      split: list.splits)

lemma inputQueue_moveSnake: "inputQueue (snd (moveSnake rnd g)) = inputQueue (processInput g)"
  by (simp add: moveSnake_def Let_def endGame_def addFoodScore_def countFood_def
      split: list.splits)

text \<open>
  C3. When the step takes a direction off the queue, the heading after the step is the
  heading before it if the direction is its reverse, and the direction otherwise; the
  direction leaves the queue either way. This holds for every outcome of the step.
\<close>

theorem reverse_input_discarded:
  assumes "inputQueue g = nextDir # rest"
  shows "direction (snd (moveSnake rnd g)) =
           (if nextDir = opposite (direction g) then direction g else nextDir)
         \<and> inputQueue (snd (moveSnake rnd g)) = rest"
  using assms
  by (simp add: direction_moveSnake inputQueue_moveSnake direction_processInput
      inputQueue_processInput)

theorem reverse_input_discarded_witness:
  "inputQueue reversingGame = LEFT # [UP]
   \<and> direction reversingGame = RIGHT
   \<and> direction (snd (moveSnake originDraws reversingGame)) = RIGHT
   \<and> inputQueue (snd (moveSnake originDraws reversingGame)) = [UP]"
proof -
  have q: "inputQueue reversingGame = LEFT # [UP]"
    by (simp add: reversingGame_def)
  have d: "direction reversingGame = RIGHT"
    by (simp add: reversingGame_def playingGame_def initialGame_def)
  from reverse_input_discarded[OF q, of originDraws] q d show ?thesis by simp
qed

subsection \<open>Collisions\<close>

lemma moveSnake_outcome:
  assumes "newHead g = Some h"
  shows "fst (moveSnake rnd g) =
     (if \<not> inGrid h then CollisionWall
      else if h \<in> set (butlast (snake g)) then CollisionSelf
      else if list_ex (\<lambda>enemy. x enemy = x h \<and> y enemy = y h) (enemies g)
      then CollisionObstacle
      else Moved)"
  using assms
  by (auto simp: moveSnake_def newHead_def Let_def inGrid_def on_cells_iff split: list.splits)

lemma moveSnake_terminal:
  assumes "moveSnake rnd g = (out, g')" "out \<noteq> Moved"
  shows "snake g' = snake g \<and> food g' = food g \<and> enemies g' = enemies g
         \<and> gameState g' = gameover"
  using assms
  by (auto simp: moveSnake_def Let_def endGame_def split: list.splits if_splits)

lemma moveSnake_Moved_fields:
  assumes nh: "newHead g = Some h" and m: "fst (moveSnake rnd g) = Moved"
  shows "snake (snd (moveSnake rnd g)) = (if h = food g then h # snake g else h # butlast (snake g))"
    and "food (snd (moveSnake rnd g)) =
           (if h = food g then spawnFood rnd (h # snake g) (enemies g) else food g)"
proof -
  from nh obtain a rest where s: "snake g = a # rest"
      and h: "stepHead (direction (processInput g)) a = h"
    by (auto simp: newHead_def Let_def split: list.splits)
  from moveSnake_outcome[OF nh, of rnd] m
  have c: "inGrid h" "h \<notin> set (butlast (snake g))"
      "\<not> list_ex (\<lambda>enemy. x enemy = x h \<and> y enemy = y h) (enemies g)"
    by (auto split: if_splits)
  from c(1) have w: "0 \<le> x h" "x h < GRID_SIZE" "0 \<le> y h" "y h < GRID_SIZE"
    by (simp_all add: inGrid_def)
  from c(2) s have sf: "\<not> list_ex (\<lambda>seg. x seg = x h \<and> y seg = y h) (butlast (a # rest))"
    by (simp only: on_cells_iff) simp
  have fd: "(x h = x (food g) \<and> y h = y (food g)) = (h = food g)"
    by (simp add: Position_eq_iff)
  have run: "moveSnake rnd g =
     (if h = food g
      then (let g1 = (processInput g)\<lparr>snake := h # a # rest,
                        effects := effects (processInput g) @
                          [CoinSound, Particles (x (food g)) (y (food g)) 12]\<rparr>;
                g2 = countFood (addFoodScore g1);
                g3 = g2\<lparr>speed := speedUp (speed g2)\<rparr>
            in (Moved, g3\<lparr>food := spawnFood rnd (snake g3) (enemies g3)\<rparr>))
      else (Moved, (processInput g)\<lparr>snake := butlast (h # a # rest)\<rparr>))"
    unfolding moveSnake_def Let_def
    using w sf c(3) by (simp add: s h fd del: butlast.simps)
  show "snake (snd (moveSnake rnd g)) = (if h = food g then h # snake g else h # butlast (snake g))"
    unfolding run by (simp add: s Let_def addFoodScore_def countFood_def)
  show "food (snd (moveSnake rnd g)) =
           (if h = food g then spawnFood rnd (h # snake g) (enemies g) else food g)"
    unfolding run by (simp add: s Let_def addFoodScore_def countFood_def)
qed



text \<open>
  C4. A step that ends in a wall, self or obstacle collision leaves the snake, the food and
  the obstacles as they were and puts the game in phase \<open>gameover\<close>; which outcome the step
  has is decided by the wall test first, the self test second, the obstacle test third.
\<close>

theorem terminal_outcome_keeps_grid:
  assumes "moveSnake rnd g = (out, g')"
  shows "(out \<noteq> Moved \<longrightarrow>
            snake g' = snake g \<and> food g' = food g \<and> enemies g' = enemies g
            \<and> gameState g' = gameover)
       \<and> (\<forall>h. newHead g = Some h \<longrightarrow>
            out = (if \<not> inGrid h then CollisionWall
                   else if h \<in> set (butlast (snake g)) then CollisionSelf
                   else if list_ex (\<lambda>enemy. x enemy = x h \<and> y enemy = y h) (enemies g)
                   then CollisionObstacle
                   else Moved))"
proof -
  have "out = fst (moveSnake rnd g)"
    using assms by simp
  then show ?thesis
    using moveSnake_terminal[OF assms] moveSnake_outcome[of g _ rnd] by auto
qed

theorem terminal_outcome_keeps_grid_witness:
  "moveSnake originDraws wallGame = (CollisionWall, endGame [GameOverSound] wallGame)
   \<and> snake (endGame [GameOverSound] wallGame) = snake wallGame
   \<and> food (endGame [GameOverSound] wallGame) = food wallGame
   \<and> enemies (endGame [GameOverSound] wallGame) = enemies wallGame
   \<and> gameState (endGame [GameOverSound] wallGame) = gameover"
proof -
  have run: "moveSnake originDraws wallGame = (CollisionWall, endGame [GameOverSound] wallGame)"
    by (simp add: wallGame_def playingGame_def initialGame_def moveSnake_def
        processInput_def Let_def GRID_SIZE_def)
  from terminal_outcome_keeps_grid[OF run] run show ?thesis by simp
qed

subsection \<open>Food respawn\<close>

lemma sampleFood_free: "\<not> blocked (rnd n) \<Longrightarrow> sampleFood blocked rnd n = rnd n"
  by (subst sampleFood.simps) (simp add: Let_def)

lemma sampleFood_range: "\<exists>i. sampleFood blocked rnd n = rnd i"
proof (induction blocked rnd n rule: sampleFood.induct)
  case (1 blocked rnd attempts)
  show ?case
  proof (cases "blocked (rnd attempts) \<and> attempts + 1 < 300")
    case True
    with 1 show ?thesis by (subst sampleFood.simps) (simp add: Let_def)
  next
    case False
    then show ?thesis by (subst sampleFood.simps) (auto simp add: Let_def)
  qed
qed

lemma scanRow_Some: "scanRow blocked row col = Some c \<Longrightarrow> \<not> blocked c \<and> y c = row \<and> col \<le> x c \<and> x c < GRID_SIZE"
proof (induction blocked row col rule: scanRow.induct)
  case (1 blocked row col)
  then show ?case
    by (subst (asm) (2) scanRow.simps) (auto simp: Let_def split: if_splits)
qed

lemma scanRow_Some_first:
  "scanRow blocked row col = Some c \<Longrightarrow> col \<le> k \<Longrightarrow> k < x c \<Longrightarrow> blocked \<lparr>x = k, y = row\<rparr>"
proof (induction blocked row col rule: scanRow.induct)
  case (1 blocked row col)
  from "1.prems"(1) have lt: "col < GRID_SIZE"
    by (subst (asm) scanRow.simps) (auto split: if_splits)
  show ?case
  proof (cases "blocked \<lparr>x = col, y = row\<rparr>")
    case True
    with lt "1.prems"(1) have rec: "scanRow blocked row (col + 1) = Some c"
      by (subst (asm) scanRow.simps) (simp add: Let_def)
    show ?thesis
    proof (cases "k = col")
      case True
      with \<open>blocked \<lparr>x = col, y = row\<rparr>\<close> show ?thesis by simp
    next
      case False
      with "1.prems" have "col + 1 \<le> k" by simp
      with "1.IH"[OF lt refl] True rec "1.prems"(3) show ?thesis by simp
    qed
  next
    case False
    with lt "1.prems"(1) have "c = \<lparr>x = col, y = row\<rparr>"
      by (subst (asm) scanRow.simps) (simp add: Let_def)
    with "1.prems" show ?thesis by simp
  qed
qed

lemma scanRow_None:
  "scanRow blocked row col = None \<Longrightarrow> col \<le> k \<Longrightarrow> k < GRID_SIZE \<Longrightarrow> blocked \<lparr>x = k, y = row\<rparr>"
proof (induction blocked row col rule: scanRow.induct)
  case (1 blocked row col)
  from "1.prems" have lt: "col < GRID_SIZE" by simp
  from lt "1.prems"(1) have b: "blocked \<lparr>x = col, y = row\<rparr>"
    by (subst (asm) scanRow.simps) (auto simp: Let_def split: if_splits)
  from lt b "1.prems"(1) have rec: "scanRow blocked row (col + 1) = None"
    by (subst (asm) scanRow.simps) (simp add: Let_def)
  show ?case
  proof (cases "k = col")
    case True
    with b show ?thesis by simp
  next
    case False
    with "1.prems" have "col + 1 \<le> k" by simp
    with "1.IH"[OF lt refl] b rec "1.prems"(3) show ?thesis by simp
  qed
qed

lemma scanGrid_blocked:
  assumes "\<And>p. 0 \<le> x p \<Longrightarrow> x p < GRID_SIZE \<Longrightarrow> row \<le> y p \<Longrightarrow> y p < GRID_SIZE \<Longrightarrow> blocked p"
  shows "scanGrid blocked row newFood = newFood"
  using assms
proof (induction blocked row newFood rule: scanGrid.induct)
  case (1 blocked row newFood)
  show ?case
  proof (cases "row < GRID_SIZE")
    case False
    then show ?thesis by (subst scanGrid.simps) simp
  next
    case True
    have none: "scanRow blocked row 0 = None"
    proof (cases "scanRow blocked row 0")
      case (Some c)
      from scanRow_Some[OF Some] True "1.prems"[of c] show ?thesis by simp
    qed simp
    have "scanGrid blocked (row + 1) newFood = newFood"
      by (rule "1.IH"[OF True none]) (simp add: "1.prems")
    with True none show ?thesis by (subst scanGrid.simps) simp
  qed
qed

lemma scanGrid_free:
  assumes "0 \<le> x p" "x p < GRID_SIZE" "row \<le> y p" "y p < GRID_SIZE" "\<not> blocked p"
  shows "\<not> blocked (scanGrid blocked row newFood)
       \<and> 0 \<le> x (scanGrid blocked row newFood) \<and> x (scanGrid blocked row newFood) < GRID_SIZE
       \<and> row \<le> y (scanGrid blocked row newFood) \<and> y (scanGrid blocked row newFood) < GRID_SIZE
       \<and> (\<forall>q. 0 \<le> x q \<and> x q < GRID_SIZE \<and> row \<le> y q \<and>
              rowMajorBefore q (scanGrid blocked row newFood) \<longrightarrow> blocked q)"
  using assms
proof (induction blocked row newFood rule: scanGrid.induct)
  case (1 blocked row newFood)
  from "1.prems" have lt: "row < GRID_SIZE" by simp
  show ?case
  proof (cases "scanRow blocked row 0")
    case (Some c)
    then have res: "scanGrid blocked row newFood = c"
      using lt by (subst scanGrid.simps) simp
    have before: "blocked q" if "0 \<le> x q" "row \<le> y q" "rowMajorBefore q c" for q
    proof -
      from scanRow_Some[OF Some] have yc: "y c = row" by simp
      with that have "y q = row" "x q < x c" by (auto simp: rowMajorBefore_def)
      with scanRow_Some_first[OF Some that(1), of ] have "blocked \<lparr>x = x q, y = row\<rparr>" by simp
      with \<open>y q = row\<close> show ?thesis by (auto intro: blocked_cell)
    qed
    from scanRow_Some[OF Some] lt res before show ?thesis by auto
  next
    case None
    then have res: "scanGrid blocked row newFood = scanGrid blocked (row + 1) newFood"
      using lt by (subst scanGrid.simps) simp
    have rowblocked: "blocked q" if "0 \<le> x q" "x q < GRID_SIZE" "y q = row" for q
      using scanRow_None[OF None that(1) that(2)] that(3) by (auto intro: blocked_cell)
    with "1.prems" have "row + 1 \<le> y p" by (cases "y p = row") auto
    from "1.IH"[OF lt None "1.prems"(1,2) this "1.prems"(4,5)]
    have ih: "\<not> blocked (scanGrid blocked (row + 1) newFood)
       \<and> 0 \<le> x (scanGrid blocked (row + 1) newFood) \<and> x (scanGrid blocked (row + 1) newFood) < GRID_SIZE
       \<and> row + 1 \<le> y (scanGrid blocked (row + 1) newFood) \<and> y (scanGrid blocked (row + 1) newFood) < GRID_SIZE
       \<and> (\<forall>q. 0 \<le> x q \<and> x q < GRID_SIZE \<and> row + 1 \<le> y q \<and>
              rowMajorBefore q (scanGrid blocked (row + 1) newFood) \<longrightarrow> blocked q)" .
    have "blocked q" if "0 \<le> x q" "x q < GRID_SIZE" "row \<le> y q"
        "rowMajorBefore q (scanGrid blocked (row + 1) newFood)" for q
    proof (cases "y q = row")
      case True
      with that rowblocked show ?thesis by simp
    next
      case False
      with that have "row + 1 \<le> y q" by simp
      with ih that show ?thesis by blast
    qed
    with ih res show ?thesis by auto
  qed
qed

lemma sampleFood_first_free:
  assumes "\<not> blocked (rnd i)" "n \<le> i" "i < 300" "\<forall>j. n \<le> j \<and> j < i \<longrightarrow> blocked (rnd j)"
  shows "sampleFood blocked rnd n = rnd i"
  using assms
proof (induction blocked rnd n rule: sampleFood.induct)
  case (1 blocked rnd attempts)
  show ?case
  proof (cases "attempts = i")
    case True
    with "1.prems" show ?thesis by (subst sampleFood.simps) (simp add: Let_def)
  next
    case False
    with "1.prems" have b: "blocked (rnd attempts)" "attempts + 1 < 300" "attempts + 1 \<le> i" by auto
    have "sampleFood blocked rnd (attempts + 1) = rnd i"
      using "1.IH"[OF refl refl] b "1.prems" by auto
    with b show ?thesis by (subst sampleFood.simps) (simp add: Let_def)
  qed
qed

lemma sampleFood_all_blocked:
  assumes "\<forall>j. n \<le> j \<and> j < 300 \<longrightarrow> blocked (rnd j)" "n < 300"
  shows "sampleFood blocked rnd n = rnd 299"
  using assms
proof (induction blocked rnd n rule: sampleFood.induct)
  case (1 blocked rnd attempts)
  show ?case
  proof (cases "attempts + 1 < 300")
    case True
    with "1.prems" have b: "blocked (rnd attempts)" by simp
    have "sampleFood blocked rnd (attempts + 1) = rnd 299"
      using "1.IH"[OF refl refl] b True "1.prems" by auto
    with b True show ?thesis by (subst sampleFood.simps) (simp add: Let_def)
  next
    case False
    with "1.prems" have "attempts = 299" by simp
    then show ?thesis by (subst sampleFood.simps) (simp add: Let_def)
  qed
qed

text \<open>
  C2, as amended. If some cell of the grid is neither a snake cell nor an obstacle cell, the
  respawned food is on no snake cell and on no obstacle cell. It is the first draw that is
  free, if one of the 300 draws is; if none is, it is the first free cell of the grid in
  row-major order.
\<close>

theorem spawnFood_avoids_blocked:
  assumes "inGrid p" and "\<not> isBlocked sn en p"
  shows "spawnFood rnd sn en \<notin> set sn
       \<and> (\<forall>enemy \<in> set en. \<not> (x enemy = x (spawnFood rnd sn en)
                                 \<and> y enemy = y (spawnFood rnd sn en)))
       \<and> (\<forall>i < 300. \<not> isBlocked sn en (rnd i) \<and> (\<forall>j < i. isBlocked sn en (rnd j))
              \<longrightarrow> spawnFood rnd sn en = rnd i)
       \<and> ((\<forall>i < 300. isBlocked sn en (rnd i))
              \<longrightarrow> inGrid (spawnFood rnd sn en)
                \<and> (\<forall>q. inGrid q \<and> rowMajorBefore q (spawnFood rnd sn en)
                        \<longrightarrow> isBlocked sn en q))"
proof -
  let ?b = "isBlocked sn en"
  let ?f = "spawnFood rnd sn en"
  from assms have scan: "\<not> ?b (scanGrid ?b 0 nf)
       \<and> 0 \<le> x (scanGrid ?b 0 nf) \<and> x (scanGrid ?b 0 nf) < GRID_SIZE
       \<and> 0 \<le> y (scanGrid ?b 0 nf) \<and> y (scanGrid ?b 0 nf) < GRID_SIZE
       \<and> (\<forall>q. 0 \<le> x q \<and> x q < GRID_SIZE \<and> 0 \<le> y q \<and>
              rowMajorBefore q (scanGrid ?b 0 nf) \<longrightarrow> ?b q)" for nf
    by (intro scanGrid_free[of p 0 ?b nf]) (simp_all add: inGrid_def)
  have free: "\<not> ?b ?f"
    using scan by (simp add: spawnFood_def Let_def)
  have sampled: "?f = rnd i" if "i < 300" "\<not> ?b (rnd i)" "\<forall>j < i. ?b (rnd j)" for i
  proof -
    from that have "sampleFood ?b rnd 0 = rnd i"
      by (intro sampleFood_first_free) simp_all
    with that show ?thesis by (simp add: spawnFood_def Let_def)
  qed
  have fallback: "inGrid ?f \<and> (\<forall>q. inGrid q \<and> rowMajorBefore q ?f \<longrightarrow> ?b q)"
    if "\<forall>i < 300. ?b (rnd i)"
  proof -
    from that have "sampleFood ?b rnd 0 = rnd 299"
      by (intro sampleFood_all_blocked) simp_all
    with that have "?f = scanGrid ?b 0 (rnd 299)"
      by (simp add: spawnFood_def Let_def)
    with scan[of "rnd 299"] show ?thesis by (simp add: inGrid_def)
  qed
  from free sampled fallback show ?thesis
    by (simp add: isBlocked_iff)
qed

theorem spawnFood_avoids_blocked_witness:
  "inGrid \<lparr>x = 1, y = 0\<rparr> \<and> \<not> isBlocked startSnake cornerEnemy \<lparr>x = 1, y = 0\<rparr>
   \<and> spawnFood originDraws startSnake cornerEnemy \<notin> set startSnake
   \<and> \<not> list_ex (\<lambda>enemy. x enemy = x (spawnFood originDraws startSnake cornerEnemy)
                        \<and> y enemy = y (spawnFood originDraws startSnake cornerEnemy))
          cornerEnemy"
proof -
  have h1: "inGrid \<lparr>x = 1, y = 0\<rparr>"
    by (simp add: inGrid_def GRID_SIZE_def)
  have h2: "\<not> isBlocked startSnake cornerEnemy \<lparr>x = 1, y = 0\<rparr>"
    by (simp add: isBlocked_def startSnake_def cornerEnemy_def)
  from spawnFood_avoids_blocked[OF h1 h2, of originDraws] h1 h2 show ?thesis
    unfolding list_ex_iff by blast
qed

lemma fullGridSnake_covers: "inGrid p \<Longrightarrow> p \<in> set fullGridSnake"
proof -
  assume g: "inGrid p"
  then have "y p \<in> set [0..14]" "x p \<in> set [0..14]"
    by (simp_all add: inGrid_def GRID_SIZE_def)
  moreover have "p = \<lparr>x = x p, y = y p\<rparr>" by simp
  ultimately have "\<exists>r \<in> set [0..14]. \<exists>c \<in> set [0..14]. p = \<lparr>x = c, y = r\<rparr>" by blast
  then show ?thesis
    unfolding fullGridSnake_def by auto
qed

text \<open>
  The claim C2 as it is written fails: when the snake covers the whole grid, no cell is
  free, the scan finds nothing and the food stays on the last draw, which is a snake cell.
\<close>

theorem full_grid_counterexample:
  "spawnFood originDraws fullGridSnake [] \<in> set fullGridSnake"
proof -
  let ?b = "isBlocked fullGridSnake []"
  have o: "?b \<lparr>x = 0, y = 0\<rparr>"
    by (simp add: isBlocked_iff fullGridSnake_covers inGrid_def GRID_SIZE_def)
  obtain i where i: "sampleFood ?b originDraws 0 = originDraws i"
    using sampleFood_range by blast
  have "scanGrid ?b 0 nf = nf" for nf
    by (rule scanGrid_blocked) (simp add: isBlocked_iff fullGridSnake_covers inGrid_def)
  with i o have "spawnFood originDraws fullGridSnake [] = \<lparr>x = 0, y = 0\<rparr>"
    by (simp add: spawnFood_def Let_def originDraws_def)
  with o show ?thesis by (simp add: isBlocked_iff)
qed

subsection \<open>The food stays off the snake\<close>

lemma spawnFood_free:
  assumes "inGrid p" and "\<not> isBlocked sn en p"
  shows "\<not> isBlocked sn en (spawnFood rnd sn en)"
proof -
  from assms have "\<not> isBlocked sn en (scanGrid (isBlocked sn en) 0 nf)" for nf
    using scanGrid_free[of p 0 "isBlocked sn en" nf] by (simp add: inGrid_def)
  then show ?thesis by (simp add: spawnFood_def Let_def)
qed

lemma moveSnake_keeps_food_off_snake:
  assumes "distinct (snake g)" and "food g \<notin> set (snake g)"
    and "\<exists>p. inGrid p \<and> \<not> isBlocked (snake (snd (moveSnake rnd g))) (enemies g) p"
  shows "distinct (snake (snd (moveSnake rnd g)))
       \<and> food (snd (moveSnake rnd g)) \<notin> set (snake (snd (moveSnake rnd g)))"
proof (cases "newHead g")
  case None
  then have "snake g = []" by (simp add: newHead_def Let_def split: list.splits)
  then have "moveSnake rnd g = (Moved, processInput g)"
    by (simp add: moveSnake_def Let_def)
  with assms show ?thesis by simp
next
  case (Some h)
  then have ne: "snake g \<noteq> []" by (auto simp: newHead_def Let_def split: list.splits)
  show ?thesis
  proof (cases "fst (moveSnake rnd g) = Moved")
    case False
    with moveSnake_terminal[of rnd g "fst (moveSnake rnd g)" "snd (moveSnake rnd g)"] assms
    show ?thesis by simp
  next
    case True
    with moveSnake_outcome[OF Some, of rnd] have nb: "h \<notin> set (butlast (snake g))"
      by (simp split: if_splits)
    from assms(1) have db: "distinct (butlast (snake g))" by (rule distinct_butlast)
    have sn: "snake (snd (moveSnake rnd g)) = (if h = food g then h # snake g else h # butlast (snake g))"
      using Some True by (rule moveSnake_Moved_fields)
    have fo: "food (snd (moveSnake rnd g)) =
           (if h = food g then spawnFood rnd (h # snake g) (enemies g) else food g)"
      using Some True by (rule moveSnake_Moved_fields)
    show ?thesis
    proof (cases "h = food g")
      case False
      with fo have "food (snd (moveSnake rnd g)) = food g"
        by simp
      moreover from assms(2) have "food g \<notin> set (butlast (snake g))"
        by (auto dest: in_set_butlastD)
      ultimately show ?thesis using sn False nb db by auto
    next
      case eat: True
      with fo sn have f: "food (snd (moveSnake rnd g))
          = spawnFood rnd (snake (snd (moveSnake rnd g))) (enemies g)"
        by simp
      from assms(3) obtain p where "inGrid p"
          "\<not> isBlocked (snake (snd (moveSnake rnd g))) (enemies g) p" by blast
      then have "\<not> isBlocked (snake (snd (moveSnake rnd g))) (enemies g)
          (spawnFood rnd (snake (snd (moveSnake rnd g))) (enemies g))"
        by (rule spawnFood_free)
      with f have "food (snd (moveSnake rnd g)) \<notin> set (snake (snd (moveSnake rnd g)))"
        by (simp add: isBlocked_iff)
      moreover from eat assms sn have "distinct (snake (snd (moveSnake rnd g)))" by simp
      ultimately show ?thesis by simp
    qed
  qed
qed

lemma fresh_level_food_off_snake:
  assumes "inGrid p" and "\<not> isBlocked startSnake en p"
  shows "distinct startSnake \<and> spawnFood rnd startSnake en \<notin> set startSnake"
  using spawnFood_free[OF assms, of rnd] by (simp add: isBlocked_iff) (simp add: startSnake_def)

subsection \<open>Speed\<close>

lemma speed_moveSnake_food:
  assumes "newHead g = Some h" "h = food g" "fst (moveSnake rnd g) = Moved"
  shows "speed (snd (moveSnake rnd g)) = speedUp (speed g)"
  using assms
  by (auto simp: moveSnake_def newHead_def Let_def addFoodScore_def countFood_def endGame_def
      split: list.splits if_splits)

lemma speedUp_cases:
  "speedUp v = (case v of Fin c \<Rightarrow> Fin (max (c - 5) 60) | NegInf \<Rightarrow> Fin 60 | _ \<Rightarrow> Fin 150)"
  by (cases v) (simp_all add: speedUp_def SPEED_DECREASE_def MIN_SPEED_def INITIAL_SPEED_def)

text \<open>
  C8. On a tick that eats the food, a finite tick interval \<open>c\<close> becomes \<open>max (c - 5) 60\<close>;
  if the interval computed that way is not finite it is set to 150; the stored interval and
  the interval the game loop uses are finite afterwards.
\<close>

theorem food_speed_up:
  assumes "newHead g = Some (food g)" and "fst (moveSnake rnd g) = Moved"
  shows "speed (snd (moveSnake rnd g)) = speedUp (speed g)
       \<and> (\<forall>c. speed g = Fin c \<longrightarrow> speed (snd (moveSnake rnd g)) = Fin (max (c - 5) 60))
       \<and> (\<not> isFinite (jsMax (jsMinus (speed g) 5) 60)
            \<longrightarrow> speed (snd (moveSnake rnd g)) = Fin 150)
       \<and> isFinite (speed (snd (moveSnake rnd g)))
       \<and> isFinite (gameLoopSpeed (speed (snd (moveSnake rnd g))))"
proof -
  have s: "speed (snd (moveSnake rnd g)) = speedUp (speed g)"
    using assms by (intro speed_moveSnake_food[of g "food g"]) simp_all
  show ?thesis unfolding s
    by (cases "speed g") (simp_all add: speedUp_cases gameLoopSpeed_def)
qed

theorem food_speed_up_witness:
  "newHead eatingGame = Some (food eatingGame)
   \<and> fst (moveSnake originDraws eatingGame) = Moved
   \<and> speed eatingGame = Fin 62
   \<and> speed (snd (moveSnake originDraws eatingGame)) = Fin 60"
proof -
  have h1: "newHead eatingGame = Some (food eatingGame)"
    by (simp add: eatingGame_def playingGame_def initialGame_def startSnake_def newHead_def
        processInput_def isValidTurn_def)
  have h2: "fst (moveSnake originDraws eatingGame) = Moved"
    by (simp add: eatingGame_def playingGame_def initialGame_def startSnake_def moveSnake_def
        processInput_def isValidTurn_def Let_def GRID_SIZE_def)
  have h3: "speed eatingGame = Fin 62"
    by (simp add: eatingGame_def)
  with food_speed_up[OF h1 h2]
  have "speed (snd (moveSnake originDraws eatingGame)) = Fin (max (62 - 5) 60)" by blast
  with h1 h2 h3 show ?thesis by simp
qed

subsection \<open>Leaderboard order and size\<close>

lemma hofCompare_le: "hofCompare a b \<le> 0 \<longleftrightarrow> hofOrdered a b"
  by (auto simp: hofCompare_def hofOrdered_def)

lemma hofOrdered_total: "\<not> hofOrdered a b \<Longrightarrow> hofOrdered b a"
  by (auto simp: hofOrdered_def)

lemma hofOrdered_trans: "hofOrdered a b \<Longrightarrow> hofOrdered b c \<Longrightarrow> hofOrdered a c"
  by (auto simp: hofOrdered_def)

lemma set_jsInsert: "set (jsInsert cmp a bs) = insert a (set bs)"
  by (induction bs) auto

lemma length_jsInsert: "length (jsInsert cmp a bs) = Suc (length bs)"
  by (induction bs) auto

lemma length_jsSort: "length (jsSort cmp as) = length as"
  by (induction as) (simp_all add: jsSort_def length_jsInsert)

lemma sorted_jsInsert:
  "sorted_wrt hofOrdered bs \<Longrightarrow> sorted_wrt hofOrdered (jsInsert hofCompare a bs)"
proof (induction bs)
  case Nil
  then show ?case by simp
next
  case (Cons b bs)
  show ?case
  proof (cases "hofCompare a b \<le> 0")
    case True
    then have "hofOrdered a b" by (simp add: hofCompare_le)
    with Cons.prems have "\<forall>c \<in> set (b # bs). hofOrdered a c"
      by (auto intro: hofOrdered_trans)
    with True Cons.prems show ?thesis by simp
  next
    case False
    then have "hofOrdered b a" by (simp add: hofCompare_le hofOrdered_total)
    with False Cons show ?thesis by (auto simp: set_jsInsert)
  qed
qed

lemma sorted_jsSort: "sorted_wrt hofOrdered (jsSort hofCompare as)"
  by (induction as) (simp_all add: jsSort_def sorted_jsInsert)

lemma set_jsSort: "set (jsSort cmp as) = set as"
  by (induction as) (simp_all add: jsSort_def set_jsInsert)

text \<open>
  C5. Merging an entry into any leaderboard gives a list of at most ten entries that is
  sorted by score descending, then timestamp descending. Its length is the old length plus
  one, capped at ten, and it holds no entry other than the new one and the old ones.
\<close>

theorem merge_bounded_sorted:
  "length (hallOfFame (mergeHallOfFame entry g)) \<le> 10
   \<and> sorted_wrt hofOrdered (hallOfFame (mergeHallOfFame entry g))
   \<and> length (hallOfFame (mergeHallOfFame entry g)) = min 10 (length (hallOfFame g) + 1)
   \<and> set (hallOfFame (mergeHallOfFame entry g)) \<subseteq> insert entry (set (hallOfFame g))"
proof -
  have "set (take 10 (jsSort hofCompare (entry # hallOfFame g))) \<subseteq> set (jsSort hofCompare (entry # hallOfFame g))"
    by (rule set_take_subset)
  then show ?thesis
  by (simp add: mergeHallOfFame_def mergeEntries_def sorted_wrt_take sorted_jsSort length_jsSort set_jsSort)
qed

theorem merge_bounded_sorted_witness:
  "hallOfFame (mergeHallOfFame (boardEntry 5 200) ((initialGame False)\<lparr>hallOfFame := fullBoard\<rparr>))
     = map (\<lambda>s. boardEntry s 100) [12, 11, 10, 9, 8, 7, 6] @ [boardEntry 5 200, boardEntry 5 100, boardEntry 4 100]
   \<and> length (hallOfFame (mergeHallOfFame (boardEntry 5 200) ((initialGame False)\<lparr>hallOfFame := fullBoard\<rparr>))) \<le> 10
   \<and> sorted_wrt hofOrdered (hallOfFame (mergeHallOfFame (boardEntry 5 200) ((initialGame False)\<lparr>hallOfFame := fullBoard\<rparr>)))"
proof -
  have "hallOfFame (mergeHallOfFame (boardEntry 5 200) ((initialGame False)\<lparr>hallOfFame := fullBoard\<rparr>))
     = map (\<lambda>s. boardEntry s 100) [12, 11, 10, 9, 8, 7, 6] @ [boardEntry 5 200, boardEntry 5 100, boardEntry 4 100]"
    by (simp add: mergeHallOfFame_def mergeEntries_def jsSort_def fullBoard_def hofCompare_def boardEntry_def)
  with merge_bounded_sorted[of "boardEntry 5 200" "(initialGame False)\<lparr>hallOfFame := fullBoard\<rparr>"]
  show ?thesis by blast
qed

subsection \<open>Qualification\<close>

lemma foldl_min_Min:
  "foldl (\<lambda>m entry. min m (f entry)) a es = Min (insert a (f ` set es))"
proof (induction es arbitrary: a)
  case Nil
  then show ?case by simp
next
  case (Cons e es)
  have "Min (insert (min a (f e)) (f ` set es)) = Min (insert a (insert (f e) (f ` set es)))"
  proof (cases "es = []")
    case True
    then show ?thesis by (simp add: min_def)
  next
    case False
    then show ?thesis by (simp add: min.assoc)
  qed
  with Cons show ?case by simp
qed

lemma getHofCutoff_Min:
  "\<not> length hof < 10 \<Longrightarrow> getHofCutoff hof = Some (Min (HallOfFameEntry.score ` set hof))"
  by (cases hof) (auto simp: getHofCutoff_def foldl_min_Min insert_absorb)

text \<open>
  C6. A score qualifies exactly when it is positive and either the list has fewer than ten
  entries or the score is greater than the least score on the list (the list is the
  current top ten: it never holds more than ten entries). A score of 0 never qualifies, and
  saving with a score of 0 leaves the leaderboard as it was.
\<close>

theorem qualifies_iff:
  "(qualifiesForHof hof candidateScore \<longleftrightarrow>
      candidateScore > 0 \<and>
      (length hof < 10 \<or> candidateScore > Min (HallOfFameEntry.score ` set hof)))
   \<and> \<not> qualifiesForHof hof 0
   \<and> hallOfFame (handleSaveScore cfg insertError now (g\<lparr>score := 0\<rparr>)) = hallOfFame g"
  by (auto simp: qualifiesForHof_def getHofCutoff_Min handleSaveScore_def
      handleSaveScore_start_def)

theorem qualifies_iff_witness:
  "length fullBoard = 10 \<and> Min (HallOfFameEntry.score ` set fullBoard) = 3
   \<and> qualifiesForHof fullBoard 4 \<and> \<not> qualifiesForHof fullBoard 3 \<and> \<not> qualifiesForHof [] 0"
proof -
  have l: "length fullBoard = 10" by (simp add: fullBoard_def)
  have m: "Min (HallOfFameEntry.score ` set fullBoard) = 3"
    by (simp add: fullBoard_def boardEntry_def)
  from qualifies_iff[of fullBoard 4] qualifies_iff[of fullBoard 3] qualifies_iff[of "[]" 0] l m
  show ?thesis by simp
qed

subsection \<open>Saving a score\<close>

lemma trim_AB: "take NAME_MAX_CHARS (trim [65, 66]) = [65, 66]"
  by (simp add: trim_def isWhiteSpace_def NAME_MAX_CHARS_def)

lemma qualifies_empty: "qualifiesForHof [] 5"
  by (simp add: qualifiesForHof_def)

lemma hallOfFame_start [simp]:
  "hallOfFame (loadHallOfFameOnline_start b g) = hallOfFame g"
  "hasSavedScore (loadHallOfFameOnline_start b g) = hasSavedScore g"
  "hofIsMounted (loadHallOfFameOnline_start b g) = hofIsMounted g"
  "hofRequestId (loadHallOfFameOnline_start b g) = hofRequestId g + 1"
  by (simp_all add: loadHallOfFameOnline_start_def Let_def)

lemma mergeHallOfFame_fields [simp]:
  "hallOfFame (mergeHallOfFame entry g) = mergeEntries entry (hallOfFame g)"
  "hasSavedScore (mergeHallOfFame entry g) = hasSavedScore g"
  "hofIsMounted (mergeHallOfFame entry g) = hofIsMounted g"
  "hofRequestId (mergeHallOfFame entry g) = hofRequestId g"
  by (simp_all add: mergeHallOfFame_def)

lemma handleSaveScore_accepted:
  assumes "\<not> hasSavedScore g" "qualifiesForHof (hallOfFame g) (score g)"
    "take NAME_MAX_CHARS (trim (playerName g)) \<noteq> []"
    "\<not> (cfg \<and> hofLoading g \<and> hallOfFame g = [])"
  shows "hasSavedScore (handleSaveScore cfg insertError now g)"
    and "hallOfFame (handleSaveScore cfg insertError now g)
           = mergeEntries (savedEntry now g) (hallOfFame g)"
proof -
  from assms(2) have pos: "\<not> score g \<le> 0"
    by (auto simp: qualifiesForHof_def split: if_splits)
  from assms pos show "hasSavedScore (handleSaveScore cfg insertError now g)"
    by (auto simp: handleSaveScore_def handleSaveScore_start_def handleSaveScore_finish_def
        Let_def split: option.splits)
  from assms pos show "hallOfFame (handleSaveScore cfg insertError now g)
           = mergeEntries (savedEntry now g) (hallOfFame g)"
    by (auto simp: handleSaveScore_def handleSaveScore_start_def handleSaveScore_finish_def
        Let_def savedEntry_def split: option.splits)
qed

lemma handleSaveScore_refused:
  assumes "hasSavedScore g \<or> \<not> qualifiesForHof (hallOfFame g) (score g)
    \<or> take NAME_MAX_CHARS (trim (playerName g)) = []
    \<or> (cfg \<and> hofLoading g \<and> hallOfFame g = [])"
  shows "handleSaveScore cfg insertError now g = g"
  using assms
  by (auto simp: handleSaveScore_def handleSaveScore_start_def Let_def qualifiesForHof_def)

text \<open>
  C10. With the remote backend configured, while the online list is loading and the local
  list is empty, a save changes nothing, whatever the score and the name. Once loading is
  over or the local list is non-empty, a save of a qualifying score with a non-empty
  trimmed name, not saved before, merges the entry and sets the saved flag.
\<close>

theorem save_refused_while_loading:
  assumes "hofLoading g" and "hallOfFame g = []"
  shows "handleSaveScore True insertError now g = g
       \<and> (\<forall>g'. \<not> hasSavedScore g' \<and> qualifiesForHof (hallOfFame g') (score g')
               \<and> take NAME_MAX_CHARS (trim (playerName g')) \<noteq> []
               \<and> (\<not> hofLoading g' \<or> hallOfFame g' \<noteq> [])
             \<longrightarrow> hasSavedScore (handleSaveScore True insertError now g')
               \<and> hallOfFame (handleSaveScore True insertError now g')
                   = mergeEntries (savedEntry now g') (hallOfFame g'))"
  using assms handleSaveScore_accepted[of _ True insertError now]
  by (auto simp: handleSaveScore_refused)

theorem save_refused_while_loading_witness:
  "hofLoading (gameOverGame True) \<and> hallOfFame (gameOverGame True) = []
   \<and> qualifiesForHof (hallOfFame (gameOverGame True)) (score (gameOverGame True))
   \<and> take NAME_MAX_CHARS (trim (playerName (gameOverGame True))) \<noteq> []
   \<and> handleSaveScore True None 1000 (gameOverGame True) = gameOverGame True
   \<and> hasSavedScore (handleSaveScore True None 1000 ((gameOverGame True)\<lparr>hofLoading := False\<rparr>))"
proof -
  let ?g = "gameOverGame True"
  have f: "\<not> hasSavedScore ?g" "hallOfFame ?g = []" "score ?g = 5" "playerName ?g = [65, 66]" "hofLoading ?g"
    by (simp_all add: gameOverGame_def initialGame_def)
  from save_refused_while_loading[OF f(5) f(2), of None 1000]
  have r: "handleSaveScore True None 1000 ?g = ?g"
    and a: "\<And>g'. \<not> hasSavedScore g' \<and> qualifiesForHof (hallOfFame g') (score g')
               \<and> take NAME_MAX_CHARS (trim (playerName g')) \<noteq> []
               \<and> (\<not> hofLoading g' \<or> hallOfFame g' \<noteq> [])
             \<Longrightarrow> hasSavedScore (handleSaveScore True None 1000 g')"
    by blast+
  have "hasSavedScore (handleSaveScore True None 1000 (?g\<lparr>hofLoading := False\<rparr>))"
    by (rule a) (simp add: f qualifies_empty trim_AB)
  with r f show ?thesis by (simp add: qualifies_empty trim_AB)
qed

text \<open>
  Saves that follow one another: a save with the saved flag set changes nothing, a save
  that changes anything sets the flag and merges the entry built from the state, and a
  second save after a finished one changes nothing.
\<close>

lemma sequential_saves_one_entry:
  "(hasSavedScore g \<longrightarrow> handleSaveScore cfg insertError now g = g)
   \<and> (handleSaveScore cfg insertError now g \<noteq> g
        \<longrightarrow> hasSavedScore (handleSaveScore cfg insertError now g)
          \<and> hallOfFame (handleSaveScore cfg insertError now g)
              = mergeEntries (savedEntry now g) (hallOfFame g))
   \<and> handleSaveScore cfg insertError' now' (handleSaveScore cfg insertError now g)
       = handleSaveScore cfg insertError now g"
proof (cases "hasSavedScore g \<or> \<not> qualifiesForHof (hallOfFame g) (score g)
    \<or> take NAME_MAX_CHARS (trim (playerName g)) = []
    \<or> (cfg \<and> hofLoading g \<and> hallOfFame g = [])")
  case True
  then have "handleSaveScore cfg ie t g = g" for ie t
    by (rule handleSaveScore_refused)
  then show ?thesis by simp
next
  case False
  then have acc: "hasSavedScore (handleSaveScore cfg insertError now g)"
     "hallOfFame (handleSaveScore cfg insertError now g)
           = mergeEntries (savedEntry now g) (hallOfFame g)"
    by (simp_all add: handleSaveScore_accepted)
  from acc(1) have "handleSaveScore cfg insertError' now' (handleSaveScore cfg insertError now g)
       = handleSaveScore cfg insertError now g"
    by (simp add: handleSaveScore_refused)
  with acc False show ?thesis by simp
qed

text \<open>
  C7. Submitting the same qualifying score twice in one game should add exactly one
  leaderboard entry. It does not when the backend is configured and the second save starts
  while the first is still waiting for the remote insert: the saved flag is set only after
  the wait, both calls pass the guard, and the leaderboard, empty before, holds two entries
  afterwards.
\<close>

theorem overlapping_saves_two_entries:
  "fst (handleSaveScore_start True 1000 loadedGame)
     = Some \<lparr>id' = None, name = [65, 66], HallOfFameEntry.score = 5,
             HallOfFameEntry.level = 1, ts = 1000\<rparr>
   \<and> fst (handleSaveScore_start True 1001 (snd (handleSaveScore_start True 1000 loadedGame)))
     = Some \<lparr>id' = None, name = [65, 66], HallOfFameEntry.score = 5,
             HallOfFameEntry.level = 1, ts = 1001\<rparr>
   \<and> hallOfFame loadedGame = []
   \<and> hallOfFame
        (handleSaveScore_finish True None
           \<lparr>id' = None, name = [65, 66], HallOfFameEntry.score = 5,
             HallOfFameEntry.level = 1, ts = 1001\<rparr>
           (handleSaveScore_finish True None
              \<lparr>id' = None, name = [65, 66], HallOfFameEntry.score = 5,
                HallOfFameEntry.level = 1, ts = 1000\<rparr>
              (snd (handleSaveScore_start True 1001
                 (snd (handleSaveScore_start True 1000 loadedGame))))))
     = [\<lparr>id' = None, name = [65, 66], HallOfFameEntry.score = 5,
          HallOfFameEntry.level = 1, ts = 1001\<rparr>,
        \<lparr>id' = None, name = [65, 66], HallOfFameEntry.score = 5,
          HallOfFameEntry.level = 1, ts = 1000\<rparr>]"
  by (simp add: loadedGame_def gameOverGame_def initialGame_def handleSaveScore_start_def
      handleSaveScore_finish_def qualifies_empty trim_AB Let_def mergeEntries_def jsSort_def
      hofCompare_def)

subsection \<open>Request generations\<close>

lemma hofRequestId_save:
  "hofRequestId g \<le> hofRequestId (snd (handleSaveScore_start cfg now g))"
  "hofRequestId g \<le> hofRequestId (handleSaveScore_finish cfg insertError entry g)"
  by (simp_all add: handleSaveScore_start_def handleSaveScore_finish_def Let_def
      split: option.splits)

lemma hofRequestId_hofStep: "hofRequestId g \<le> hofRequestId (hofStep e g)"
  by (cases e)
    (simp_all add: hofRequestId_save loadHallOfFameOnline_timeout_def
      loadHallOfFameOnline_response_def split: sum.splits)

lemma hofRequestId_hofRun: "hofRequestId g \<le> hofRequestId (hofRun es g)"
proof (induction es arbitrary: g)
  case Nil
  show ?case by simp
next
  case (Cons e es)
  have "hofRequestId g \<le> hofRequestId (hofStep e g)" by (rule hofRequestId_hofStep)
  also have "\<dots> \<le> hofRequestId (hofRun es (hofStep e g))" by (rule Cons.IH)
  finally show ?case by simp
qed

lemma response_other_id:
  "hofRequestId g \<noteq> requestId \<Longrightarrow> loadHallOfFameOnline_response requestId response now g = g"
  by (simp add: loadHallOfFameOnline_response_def)

lemma timeout_other_id:
  "hofRequestId g \<noteq> requestId \<Longrightarrow> loadHallOfFameOnline_timeout requestId g = g"
  by (simp add: loadHallOfFameOnline_timeout_def)

text \<open>
  C9. Starting a fetch raises the request counter by one and tags the fetch with the new
  value; no event lowers the counter. For two fetches started in this order, with any
  events between and after them, the response and the timeout of the older one leave the
  state as it is. In general a response changes the state only if its tag is the current
  counter and the component is mounted, and then a response with rows replaces the
  leaderboard by the rows' entries.
\<close>

theorem stale_response_discarded:
  assumes "g1 = loadHallOfFameOnline_start showLoading1 g"
    and "g2 = hofRun es1 g1"
    and "g3 = loadHallOfFameOnline_start showLoading2 g2"
    and "g4 = hofRun es2 g3"
  shows "hofRequestId g1 = hofRequestId g + 1
       \<and> hofRequestId g1 < hofRequestId g3
       \<and> hofRequestId g3 \<le> hofRequestId g4
       \<and> loadHallOfFameOnline_response (hofRequestId g1) response now g4 = g4
       \<and> loadHallOfFameOnline_timeout (hofRequestId g1) g4 = g4
       \<and> (\<forall>requestId s.
            loadHallOfFameOnline_response requestId response now s \<noteq> s
              \<longrightarrow> requestId = hofRequestId s \<and> hofIsMounted s)
       \<and> (\<forall>rows s. hofIsMounted s \<longrightarrow>
            hallOfFame (loadHallOfFameOnline_response (hofRequestId s) (Inr rows) now s)
              = filter (\<lambda>entry. name entry \<noteq> []) (map (rowToEntry now) rows))"
proof -
  have a: "hofRequestId g1 = hofRequestId g + 1"
    using assms(1) by simp
  have "hofRequestId g1 \<le> hofRequestId g2"
    using assms(2) by (simp add: hofRequestId_hofRun)
  then have b: "hofRequestId g1 < hofRequestId g3"
    using assms(3) by simp
  have c: "hofRequestId g3 \<le> hofRequestId g4"
    using assms(4) by (simp add: hofRequestId_hofRun)
  from b c have ne: "hofRequestId g4 \<noteq> hofRequestId g1" by simp
  have d: "requestId = hofRequestId s \<and> hofIsMounted s"
    if "loadHallOfFameOnline_response requestId response now s \<noteq> s" for requestId s
    using that by (auto simp: loadHallOfFameOnline_response_def split: if_splits)
  have e: "hallOfFame (loadHallOfFameOnline_response (hofRequestId s) (Inr rows) now s)
              = filter (\<lambda>entry. name entry \<noteq> []) (map (rowToEntry now) rows)"
    if "hofIsMounted s" for rows s
    using that by (simp add: loadHallOfFameOnline_response_def)
  from ne have f: "loadHallOfFameOnline_response (hofRequestId g1) response now g4 = g4"
    by (rule response_other_id)
  from ne have h: "loadHallOfFameOnline_timeout (hofRequestId g1) g4 = g4"
    by (rule timeout_other_id)
  from d have d': "\<forall>requestId s.
            loadHallOfFameOnline_response requestId response now s \<noteq> s
              \<longrightarrow> requestId = hofRequestId s \<and> hofIsMounted s"
    by (intro allI impI)
  from e have e': "\<forall>rows s. hofIsMounted s \<longrightarrow>
            hallOfFame (loadHallOfFameOnline_response (hofRequestId s) (Inr rows) now s)
              = filter (\<lambda>entry. name entry \<noteq> []) (map (rowToEntry now) rows)"
    by (intro allI impI)
  from a b c f h d' e' show ?thesis
    by (intro conjI)
qed

theorem stale_response_discarded_witness:
  "hofRequestId (loadHallOfFameOnline_start True ((initialGame True)\<lparr>hofIsMounted := True\<rparr>)) = 1
   \<and> hallOfFame (hofRun [StartFetch False, FetchResponse 2 (Inr [sampleRow]) 5000]
        (loadHallOfFameOnline_start True ((initialGame True)\<lparr>hofIsMounted := True\<rparr>)))
      = [rowToEntry 5000 sampleRow]
   \<and> loadHallOfFameOnline_response 1 (Inr []) 6000
        (hofRun [StartFetch False, FetchResponse 2 (Inr [sampleRow]) 5000]
          (loadHallOfFameOnline_start True ((initialGame True)\<lparr>hofIsMounted := True\<rparr>)))
      = hofRun [StartFetch False, FetchResponse 2 (Inr [sampleRow]) 5000]
          (loadHallOfFameOnline_start True ((initialGame True)\<lparr>hofIsMounted := True\<rparr>))"
proof -
  let ?g = "(initialGame True)\<lparr>hofIsMounted := True\<rparr>"
  let ?g1 = "loadHallOfFameOnline_start True ?g"
  let ?g3 = "loadHallOfFameOnline_start False (hofRun [] ?g1)"
  let ?g4 = "hofRun [FetchResponse 2 (Inr [sampleRow]) 5000] ?g3"
  have id1: "hofRequestId ?g1 = 1"
    by (simp add: initialGame_def)
  have run: "hofRun [StartFetch False, FetchResponse 2 (Inr [sampleRow]) 5000] ?g1 = ?g4"
    by simp
  have board: "hallOfFame ?g4 = [rowToEntry 5000 sampleRow]"
    by (simp add: loadHallOfFameOnline_response_def initialGame_def rowToEntry_def sampleRow_def NAME_MAX_CHARS_def)
  have a1: "?g1 = loadHallOfFameOnline_start True ?g"
    and a2: "hofRun [] ?g1 = hofRun [] ?g1"
    and a3: "?g3 = loadHallOfFameOnline_start False (hofRun [] ?g1)"
    and a4: "?g4 = hofRun [FetchResponse 2 (Inr [sampleRow]) 5000] ?g3"
    by (rule refl)+
  from stale_response_discarded[OF a1 a2 a3 a4]
  have "loadHallOfFameOnline_response (hofRequestId ?g1) (Inr []) 6000 ?g4 = ?g4" by blast
  with id1 run board show ?thesis by simp
qed

end
